theory Spec2Isabelle
  imports Complex_Main
begin

text \<open>
  A model of \<open>main.py\<close>, the PDF text extraction service: the OCR gateway
  (\<open>textract_extract_text\<close>, \<open>textract_extract_text_with_structure\<close>), the four upload
  handlers and the health check, each as a function of the upload, of the PDF library
  and of the OCR provider. A handler returns \<open>Inl\<close> the \<open>HTTPException\<close> it raises or
  \<open>Inr\<close> its response. The \<open>print\<close> calls, \<open>doc.close()\<close> and the start-up code that reads
  the credentials are left out, as is /extract-text-from-drive/, whose loop is that of
  /extract-text/.
\<close>

section \<open>Python strings and bytes\<close>

text \<open>
  A Python \<open>str\<close> is modelled as a \<open>string\<close>: a list of characters, each a code point
  below 256. \<open>len\<close> is \<open>length\<close>. Python \<open>bytes\<close> are lists of 8-bit characters as
  well, as the byte literal of \<open>health_textract\<close> writes them.
\<close>

type_synonym bytes = string

text \<open>\<open>str.isspace\<close> on one character: the code points Python treats as whitespace
  (tab to carriage return, the four separators 0x1C to 0x1F, space, NEL, no-break space).\<close>

definition isspace :: "char \<Rightarrow> bool" where
  "isspace c =
     (let n = (of_char c :: nat)
      in (9 \<le> n \<and> n \<le> 13) \<or> (28 \<le> n \<and> n \<le> 32) \<or> n = 133 \<or> n = 160)"

text \<open>\<open>s.strip()\<close>: leading and trailing whitespace removed.\<close>

definition strip :: "string \<Rightarrow> string" where
  "strip s = rev (dropWhile isspace (rev (dropWhile isspace s)))"

text \<open>\<open>str.lower\<close> on one character: the upper-case letters below 256 move up by 32.\<close>

definition lower_char :: "char \<Rightarrow> char" where
  "lower_char c =
     (let n = (of_char c :: nat)
      in if (65 \<le> n \<and> n \<le> 90) \<or> (192 \<le> n \<and> n \<le> 214) \<or> (216 \<le> n \<and> n \<le> 222)
         then char_of (n + 32) else c)"

definition lower :: "string \<Rightarrow> string" where
  "lower s = map lower_char s"

text \<open>\<open>s.endswith(suffix)\<close>.\<close>

definition endswith :: "string \<Rightarrow> string \<Rightarrow> bool" where
  "endswith s suf = (length suf \<le> length s \<and> drop (length s - length suf) s = suf)"

text \<open>\<open>sep.join(xs)\<close>.\<close>

fun join :: "string \<Rightarrow> string list \<Rightarrow> string" where
  "join sep [] = []"
| "join sep [x] = x"
| "join sep (x # y # ys) = x @ sep @ join sep (y # ys)"

definition NL :: string where
  "NL = [CHR 0x0A]"

text \<open>\<open>str(n)\<close> for a page number: its decimal digits.\<close>

definition digit_char :: "nat \<Rightarrow> char" where
  "digit_char d = char_of (48 + d)"

function str_nat :: "nat \<Rightarrow> string" where
  "str_nat n = (if n < 10 then [digit_char n] else str_nat (n div 10) @ [digit_char (n mod 10)])"
  by pat_completeness auto
termination
  by (relation "measure id") auto

declare str_nat.simps [simp del]

section \<open>The provider and its responses\<close>

text \<open>
  One entry of \<open>response['Blocks']\<close>. The code reads \<open>BlockType\<close> of every block and
  \<open>Text\<close>, \<open>Confidence\<close> and \<open>Geometry\<close> of LINE and WORD blocks only, where the provider
  always sends them. Confidence is a Python float; it is modelled by a rational, rounding
  left aside. Geometry is passed through untouched: a bounding box and a polygon.
\<close>

record geometry =
  BoundingBox :: "rat \<times> rat \<times> rat \<times> rat"
  Polygon :: "(rat \<times> rat) list"

record block =
  BlockType :: string
  Text :: string
  Confidence :: rat
  Geometry :: geometry

text \<open>
  What one call \<open>textract_client.detect_document_text(Document={'Bytes': image_bytes})\<close>
  does: it returns a response with its blocks, raises botocore's \<open>ClientError\<close> carrying
  \<open>e.response['Error']['Code']\<close>, or raises any other exception \<open>e\<close>, kept as \<open>str(e)\<close>.
  The client is a parameter of every function that calls it.
\<close>

datatype detect_result =
    Response "block list"
  | ClientError string
  | OtherException string

type_synonym textract_client = "bytes \<Rightarrow> detect_result"

datatype HTTPException = HTTPException (status_code: nat) (detail: string)

section \<open>The OCR gateway\<close>

text \<open>The loop of \<open>textract_extract_text\<close> over the blocks, appending to \<open>text_lines\<close>.\<close>

fun collect_text_lines :: "block list \<Rightarrow> string list \<Rightarrow> string list" where
  "collect_text_lines [] text_lines = text_lines"
| "collect_text_lines (b # bs) text_lines =
     collect_text_lines bs
       (if BlockType b = ''LINE'' then text_lines @ [Text b] else text_lines)"

definition textract_extract_text :: "textract_client \<Rightarrow> bytes \<Rightarrow> HTTPException + string" where
  "textract_extract_text client image_bytes =
     (case client image_bytes of
        Response blocks \<Rightarrow> Inr (join NL (collect_text_lines blocks []))
      | ClientError error_code \<Rightarrow>
          if error_code = ''UnrecognizedClientException'' then
            Inl (HTTPException 401
              ''Invalid AWS credentials. Please check your access key and secret key.'')
          else if error_code = ''AccessDeniedException'' then
            Inl (HTTPException 403
              ''AWS credentials don't have permission to access Textract.'')
          else if error_code = ''InvalidParameterException'' then
            Inl (HTTPException 400 ''Invalid parameters sent to Textract.'')
          else Inl (HTTPException 500 (''AWS Textract error: '' @ error_code))
      | OtherException e \<Rightarrow> Inl (HTTPException 500 (''Text extraction failed: '' @ e)))"

text \<open>An entry of \<open>lines\<close> or \<open>words\<close>: the dict with keys text (here \<open>text_of\<close>),
  confidence, geometry.\<close>

record fragment =
  text_of :: string
  confidence :: rat
  geometry :: geometry

definition fragment_of :: "block \<Rightarrow> fragment" where
  "fragment_of b = \<lparr>text_of = Text b, confidence = Confidence b, geometry = Geometry b\<rparr>"

record page_result =
  raw_text :: string
  lines :: "fragment list"
  words :: "fragment list"

text \<open>The loop of \<open>textract_extract_text_with_structure\<close>, appending to \<open>lines\<close> and
  \<open>words\<close>.\<close>

fun collect_structure ::
  "block list \<Rightarrow> fragment list \<Rightarrow> fragment list \<Rightarrow> fragment list \<times> fragment list" where
  "collect_structure [] ls ws = (ls, ws)"
| "collect_structure (b # bs) ls ws =
     (if BlockType b = ''LINE'' then collect_structure bs (ls @ [fragment_of b]) ws
      else if BlockType b = ''WORD'' then collect_structure bs ls (ws @ [fragment_of b])
      else collect_structure bs ls ws)"

definition textract_extract_text_with_structure ::
  "textract_client \<Rightarrow> bytes \<Rightarrow> HTTPException + page_result" where
  "textract_extract_text_with_structure client image_bytes =
     (case client image_bytes of
        Response blocks \<Rightarrow>
          (case collect_structure blocks [] [] of
             (ls, ws) \<Rightarrow> Inr \<lparr>raw_text = join NL (map text_of ls), lines = ls, words = ws\<rparr>)
      | ClientError error_code \<Rightarrow>
          if error_code = ''UnrecognizedClientException'' then
            Inl (HTTPException 401 ''Invalid AWS credentials.'')
          else if error_code = ''AccessDeniedException'' then
            Inl (HTTPException 403 ''Insufficient AWS permissions for Textract.'')
          else Inl (HTTPException 500 (''AWS Textract error: '' @ error_code))
      | OtherException e \<Rightarrow> Inl (HTTPException 500 (''Text extraction failed: '' @ e)))"

section \<open>The health check\<close>

text \<open>The 1x1 pixel PNG that \<open>health_textract\<close> submits.\<close>

definition test_image :: bytes where
  "test_image =
     [CHR 0x89] @ ''PNG'' @ [CHR 0x0D, CHR 0x0A, CHR 0x1A, CHR 0x0A, CHR 0x00, CHR 0x00, CHR 0x00,
       CHR 0x0D] @ ''IHDR'' @ [CHR 0x00, CHR 0x00, CHR 0x00, CHR 0x01, CHR 0x00, CHR 0x00, CHR 0x00,
       CHR 0x01, CHR 0x08, CHR 0x02, CHR 0x00, CHR 0x00, CHR 0x00, CHR 0x90] @ ''wS'' @
     [CHR 0xDE, CHR 0x00, CHR 0x00, CHR 0x00, CHR 0x09] @ ''pHYs'' @ [CHR 0x00, CHR 0x00, CHR 0x0B,
       CHR 0x13, CHR 0x00, CHR 0x00, CHR 0x0B, CHR 0x13, CHR 0x01, CHR 0x00, CHR 0x9A, CHR 0x9C,
       CHR 0x18, CHR 0x00, CHR 0x00, CHR 0x00, CHR 0x0A] @ ''IDATx'' @ [CHR 0x9C] @ ''c'' @
     [CHR 0xF8, CHR 0x00, CHR 0x00, CHR 0x00, CHR 0x01, CHR 0x00, CHR 0x01] @ ''U'' @
     [CHR 0x0D] @ ''1('' @ [CHR 0x00, CHR 0x00, CHR 0x00, CHR 0x00] @ ''IEND'' @
     [CHR 0xAE] @ ''B`'' @ [CHR 0x82]"

record health =
  status :: string
  message :: string

definition health_textract :: "textract_client \<Rightarrow> health" where
  "health_textract client =
     (case client test_image of
        Response blocks \<Rightarrow>
          \<lparr>status = ''healthy'', message = ''AWS Textract connection successful''\<rparr>
      | ClientError error_code \<Rightarrow>
          if error_code = ''UnrecognizedClientException'' then
            \<lparr>status = ''error'', message = ''Invalid AWS credentials''\<rparr>
          else if error_code = ''AccessDeniedException'' then
            \<lparr>status = ''error'', message = ''AWS credentials lack Textract permissions''\<rparr>
          else if error_code \<in> set [''InvalidParameterException'', ''UnsupportedDocumentException'']
          then
            \<lparr>status = ''healthy'',
             message = ''AWS Textract connection working (expected parameter error with test data)''\<rparr>
          else \<lparr>status = ''error'', message = ''Textract connection issue: '' @ error_code\<rparr>
      | OtherException e \<Rightarrow> \<lparr>status = ''error'', message = ''Connection error: '' @ e\<rparr>)"

section \<open>Documents\<close>

text \<open>
  A document opened by PyMuPDF is the list of its pages. A page is what the code reads of
  it: \<open>page.get_text()\<close>, the embedded text layer, and the PNG bytes of
  \<open>page.get_pixmap(matrix=fitz.Matrix(2, 2)).tobytes("png")\<close>. \<open>fitz.open\<close> on the
  uploaded bytes is a parameter \<open>fitz_open\<close>: it gives the document, or \<open>Inl\<close> the
  \<open>str(e)\<close> of the exception it raised. On a document that opened, \<open>load_page\<close>,
  \<open>get_text\<close> and \<open>get_pixmap\<close> are taken to succeed on every page.
\<close>

record page =
  get_text :: string
  get_pixmap_png :: bytes

type_synonym document = "page list"

record UploadFile =
  filename :: string
  contents :: bytes

type_synonym fitz = "bytes \<Rightarrow> string + document"

text \<open>What a \<open>try\<close> block raises: an \<open>HTTPException\<close>, which every handler re-raises, or
  another exception \<open>e\<close>, kept as \<open>str(e)\<close>, which the handler turns into status 500.\<close>

datatype py_exception = Http HTTPException | Other string

fun pdf_to_images_loop :: "page list \<Rightarrow> bytes list \<Rightarrow> bytes list" where
  "pdf_to_images_loop [] images = images"
| "pdf_to_images_loop (p # ps) images = pdf_to_images_loop ps (images @ [get_pixmap_png p])"

definition pdf_to_images :: "document \<Rightarrow> bytes list" where
  "pdf_to_images pdf_document = pdf_to_images_loop pdf_document []"

definition only_pdf :: HTTPException where
  "only_pdf = HTTPException 400 ''Only PDF files are supported.''"

section \<open>/extract-text/\<close>

text \<open>The loop \<open>for page_num, page_img_bytes in enumerate(page_images, 1)\<close>; an exception of
  the gateway leaves it at once.\<close>

fun extract_text_loop ::
  "textract_client \<Rightarrow> nat \<Rightarrow> bytes list \<Rightarrow> string list \<Rightarrow> HTTPException + string list" where
  "extract_text_loop client page_num [] all_text = Inr all_text"
| "extract_text_loop client page_num (page_img_bytes # rest) all_text =
     (case textract_extract_text client page_img_bytes of
        Inl e \<Rightarrow> Inl e
      | Inr textract_text \<Rightarrow>
          extract_text_loop client (Suc page_num) rest
            (if strip textract_text \<noteq> []
             then all_text @ [''--- Page '' @ str_nat page_num @ '' ---'' @ NL @ strip textract_text]
             else all_text))"

definition extract_text_try :: "textract_client \<Rightarrow> fitz \<Rightarrow> UploadFile \<Rightarrow> py_exception + string" where
  "extract_text_try client fitz_open file =
     (case fitz_open (contents file) of
        Inl e \<Rightarrow> Inl (Other e)
      | Inr doc \<Rightarrow>
          (case extract_text_loop client 1 (pdf_to_images doc) [] of
             Inl e \<Rightarrow> Inl (Http e)
           | Inr all_text \<Rightarrow> Inr (join (NL @ NL) all_text)))"

definition extract_text :: "textract_client \<Rightarrow> fitz \<Rightarrow> UploadFile \<Rightarrow> HTTPException + string" where
  "extract_text client fitz_open file =
     (if \<not> endswith (lower (filename file)) ''.pdf'' then Inl only_pdf
      else case extract_text_try client fitz_open file of
             Inl (Http e) \<Rightarrow> Inl e
           | Inl (Other e) \<Rightarrow> Inl (HTTPException 500 (''Failed to extract text: '' @ e))
           | Inr r \<Rightarrow> Inr r)"

section \<open>/extract-text-with-fallback/\<close>

text \<open>The first loop: the stripped text layer of every page where it is not blank.\<close>

fun probe_text_layer :: "page list \<Rightarrow> string list \<Rightarrow> string list" where
  "probe_text_layer [] pymupdf_text = pymupdf_text"
| "probe_text_layer (p # ps) pymupdf_text =
     probe_text_layer ps
       (if strip (get_text p) \<noteq> [] then pymupdf_text @ [strip (get_text p)] else pymupdf_text)"

text \<open>The condition \<open>pymupdf_text and any(len(text) > 100 for text in pymupdf_text)\<close>.\<close>

definition substantial :: "string list \<Rightarrow> bool" where
  "substantial pymupdf_text = (pymupdf_text \<noteq> [] \<and> list_ex (\<lambda>t. length t > 100) pymupdf_text)"

text \<open>The loop \<open>for page_num, text in enumerate(pymupdf_text, 1)\<close>.\<close>

fun text_layer_loop :: "nat \<Rightarrow> string list \<Rightarrow> string list \<Rightarrow> string list" where
  "text_layer_loop page_num [] all_text = all_text"
| "text_layer_loop page_num (t # rest) all_text =
     text_layer_loop (Suc page_num) rest
       (all_text @ [''--- Page '' @ str_nat page_num @ '' (Text Layer) ---'' @ NL @ t])"

fun ocr_loop ::
  "textract_client \<Rightarrow> nat \<Rightarrow> bytes list \<Rightarrow> string list \<Rightarrow> HTTPException + string list" where
  "ocr_loop client page_num [] all_text = Inr all_text"
| "ocr_loop client page_num (page_img_bytes # rest) all_text =
     (case textract_extract_text client page_img_bytes of
        Inl e \<Rightarrow> Inl e
      | Inr textract_text \<Rightarrow>
          ocr_loop client (Suc page_num) rest
            (if strip textract_text \<noteq> []
             then all_text @
               [''--- Page '' @ str_nat page_num @ '' (OCR) ---'' @ NL @ strip textract_text]
             else all_text))"

definition extract_text_with_fallback_try ::
  "textract_client \<Rightarrow> fitz \<Rightarrow> UploadFile \<Rightarrow> py_exception + string" where
  "extract_text_with_fallback_try client fitz_open file =
     (case fitz_open (contents file) of
        Inl e \<Rightarrow> Inl (Other e)
      | Inr doc \<Rightarrow>
          (let pymupdf_text = probe_text_layer doc []
           in if substantial pymupdf_text
              then Inr (join (NL @ NL) (text_layer_loop 1 pymupdf_text []))
              else (case ocr_loop client 1 (pdf_to_images doc) [] of
                      Inl e \<Rightarrow> Inl (Http e)
                    | Inr all_text \<Rightarrow> Inr (join (NL @ NL) all_text))))"

definition extract_text_with_fallback ::
  "textract_client \<Rightarrow> fitz \<Rightarrow> UploadFile \<Rightarrow> HTTPException + string" where
  "extract_text_with_fallback client fitz_open file =
     (if \<not> endswith (lower (filename file)) ''.pdf'' then Inl only_pdf
      else case extract_text_with_fallback_try client fitz_open file of
             Inl (Http e) \<Rightarrow> Inl e
           | Inl (Other e) \<Rightarrow> Inl (HTTPException 500 (''Failed to extract text: '' @ e))
           | Inr r \<Rightarrow> Inr r)"

section \<open>/extract-text-json/\<close>

text \<open>Python's \<open>/\<close> of the summed confidences by \<open>len(...)\<close>: it raises ZeroDivisionError,
  kept as its message, when the divisor is 0.\<close>

definition truediv :: "rat \<Rightarrow> nat \<Rightarrow> string + rat" where
  "truediv x n = (if n = 0 then Inl ''division by zero'' else Inr (x / of_nat n))"

text \<open>The conditional expression of the \<open>average_confidence\<close> entry.\<close>

definition average_confidence_of :: "fragment list \<Rightarrow> string + rat" where
  "average_confidence_of ls =
     (if ls \<noteq> [] then truediv (sum_list (map confidence ls)) (length ls) else Inr 0)"

record json_page =
  page_number :: nat
  page_text :: string
  lines_count :: nat
  words_count :: nat
  average_confidence :: rat

record json_response =
  extracted_text :: string
  pages :: "json_page list"
  total_pages :: nat
  extraction_method :: string
  text_blocks :: "string list"

fun json_loop ::
  "textract_client \<Rightarrow> nat \<Rightarrow> bytes list \<Rightarrow> json_page list \<Rightarrow> string list
     \<Rightarrow> py_exception + json_page list \<times> string list" where
  "json_loop client page_num [] pages_data all_text_blocks = Inr (pages_data, all_text_blocks)"
| "json_loop client page_num (page_img_bytes # rest) pages_data all_text_blocks =
     (case textract_extract_text_with_structure client page_img_bytes of
        Inl e \<Rightarrow> Inl (Http e)
      | Inr page_result \<Rightarrow>
          if strip (raw_text page_result) \<noteq> [] then
            (case average_confidence_of (lines page_result) of
               Inl e \<Rightarrow> Inl (Other e)
             | Inr avg \<Rightarrow>
                 json_loop client (Suc page_num) rest
                   (pages_data @
                     [\<lparr>page_number = page_num,
                       page_text = strip (raw_text page_result),
                       lines_count = length (lines page_result),
                       words_count = length (words page_result),
                       average_confidence = avg\<rparr>])
                   (all_text_blocks @ [strip (raw_text page_result)]))
          else json_loop client (Suc page_num) rest pages_data all_text_blocks)"

definition extract_text_json_try ::
  "textract_client \<Rightarrow> fitz \<Rightarrow> UploadFile \<Rightarrow> py_exception + json_response" where
  "extract_text_json_try client fitz_open file =
     (case fitz_open (contents file) of
        Inl e \<Rightarrow> Inl (Other e)
      | Inr doc \<Rightarrow>
          (case json_loop client 1 (pdf_to_images doc) [] [] of
             Inl e \<Rightarrow> Inl e
           | Inr (pages_data, all_text_blocks) \<Rightarrow>
               Inr \<lparr>extracted_text = join (NL @ NL) all_text_blocks,
                    pages = pages_data,
                    total_pages = length pages_data,
                    extraction_method = ''AWS Textract OCR'',
                    text_blocks = all_text_blocks\<rparr>))"

definition extract_text_json ::
  "textract_client \<Rightarrow> fitz \<Rightarrow> UploadFile \<Rightarrow> HTTPException + json_response" where
  "extract_text_json client fitz_open file =
     (if \<not> endswith (lower (filename file)) ''.pdf'' then Inl only_pdf
      else case extract_text_json_try client fitz_open file of
             Inl (Http e) \<Rightarrow> Inl e
           | Inl (Other e) \<Rightarrow> Inl (HTTPException 500 (''Failed to extract text: '' @ e))
           | Inr r \<Rightarrow> Inr r)"

section \<open>/extract-text-detailed/\<close>

record detailed_page =
  d_page_number :: nat
  d_raw_text :: string
  d_lines :: "fragment list"
  d_words :: "fragment list"

record detailed_response =
  d_pages :: "detailed_page list"
  d_total_pages :: nat
  d_extraction_method :: string

fun detailed_loop ::
  "textract_client \<Rightarrow> nat \<Rightarrow> bytes list \<Rightarrow> detailed_page list
     \<Rightarrow> HTTPException + detailed_page list" where
  "detailed_loop client page_num [] detailed_results = Inr detailed_results"
| "detailed_loop client page_num (page_img_bytes # rest) detailed_results =
     (case textract_extract_text_with_structure client page_img_bytes of
        Inl e \<Rightarrow> Inl e
      | Inr page_result \<Rightarrow>
          detailed_loop client (Suc page_num) rest
            (detailed_results @
              [\<lparr>d_page_number = page_num,
                d_raw_text = raw_text page_result,
                d_lines = lines page_result,
                d_words = words page_result\<rparr>]))"

definition extract_text_detailed_try ::
  "textract_client \<Rightarrow> fitz \<Rightarrow> UploadFile \<Rightarrow> py_exception + detailed_response" where
  "extract_text_detailed_try client fitz_open file =
     (case fitz_open (contents file) of
        Inl e \<Rightarrow> Inl (Other e)
      | Inr doc \<Rightarrow>
          (case detailed_loop client 1 (pdf_to_images doc) [] of
             Inl e \<Rightarrow> Inl (Http e)
           | Inr detailed_results \<Rightarrow>
               Inr \<lparr>d_pages = detailed_results,
                    d_total_pages = length detailed_results,
                    d_extraction_method = ''AWS Textract with structure analysis''\<rparr>))"

definition extract_text_detailed ::
  "textract_client \<Rightarrow> fitz \<Rightarrow> UploadFile \<Rightarrow> HTTPException + detailed_response" where
  "extract_text_detailed client fitz_open file =
     (if \<not> endswith (lower (filename file)) ''.pdf'' then Inl only_pdf
      else case extract_text_detailed_try client fitz_open file of
             Inl (Http e) \<Rightarrow> Inl e
           | Inl (Other e) \<Rightarrow> Inl (HTTPException 500 (''Failed to extract detailed text: '' @ e))
           | Inr r \<Rightarrow> Inr r)"

section \<open>The decision rule in the specification's words\<close>

text \<open>
  The rule as the specification words it, on the embedded text itself: at least one
  page's embedded text is non-empty and at least one page's embedded text is longer than
  100 characters. It is compared below with \<open>substantial\<close> on the probed text layer, the
  test the handler makes.
\<close>

definition spec_text_based :: "document \<Rightarrow> bool" where
  "spec_text_based doc =
     (list_ex (\<lambda>p. get_text p \<noteq> []) doc \<and> list_ex (\<lambda>p. length (get_text p) > 100) doc)"

section \<open>Sample inputs\<close>

text \<open>
  Concrete providers, documents and uploads on which the theorems below are run. The
  sample provider answers by the image it is sent: it refuses the images \<open>denied\<close> and
  \<open>invalid\<close> with the matching error code, finds nothing but a PAGE block on the image
  \<open>blank\<close>, and otherwise reads the image bytes back as one LINE and one WORD.
\<close>

definition sample_block :: "string \<Rightarrow> string \<Rightarrow> rat \<Rightarrow> block" where
  "sample_block ty t c =
     \<lparr>BlockType = ty, Text = t, Confidence = c,
      Geometry = \<lparr>BoundingBox = (0, 0, 1, 1), Polygon = []\<rparr>\<rparr>"

definition sample_client :: textract_client where
  "sample_client image_bytes =
     (if image_bytes = ''denied'' then ClientError ''AccessDeniedException''
      else if image_bytes = ''invalid'' then ClientError ''InvalidParameterException''
      else if image_bytes = ''blank'' then Response [sample_block ''PAGE'' [] 0]
      else Response [sample_block ''PAGE'' [] 0, sample_block ''LINE'' image_bytes 90,
             sample_block ''WORD'' image_bytes 80])"

text \<open>A provider that finds two lines on every image.\<close>

definition two_line_client :: textract_client where
  "two_line_client image_bytes =
     Response [sample_block ''PAGE'' [] 0, sample_block ''LINE'' ''Hello'' 99,
       sample_block ''WORD'' ''Hello'' 98, sample_block ''LINE'' ''World'' 97,
       sample_block ''WORD'' ''World'' 96]"

definition invalid_parameter_client :: textract_client where
  "invalid_parameter_client image_bytes = ClientError ''InvalidParameterException''"

definition unsupported_document_client :: textract_client where
  "unsupported_document_client image_bytes = ClientError ''UnsupportedDocumentException''"

definition opens_as :: "document \<Rightarrow> fitz" where
  "opens_as doc stream = Inr doc"

definition upload :: "string \<Rightarrow> UploadFile" where
  "upload name = \<lparr>filename = name, contents = ''%PDF-1.7''\<rparr>"

definition scanned_page :: "bytes \<Rightarrow> page" where
  "scanned_page image_bytes = \<lparr>get_text = [], get_pixmap_png = image_bytes\<rparr>"

text \<open>One page whose text layer is 60 letters followed by 50 spaces.\<close>

definition doc_padded :: document where
  "doc_padded =
     [\<lparr>get_text = replicate 60 CHR ''a'' @ replicate 50 CHR '' '', get_pixmap_png = ''scan''\<rparr>]"

text \<open>Two pages: no text layer on the first, 150 letters on the second.\<close>

definition doc_blank_first :: document where
  "doc_blank_first =
     [\<lparr>get_text = [], get_pixmap_png = ''img1''\<rparr>,
      \<lparr>get_text = replicate 150 CHR ''a'', get_pixmap_png = ''img2''\<rparr>]"

text \<open>Two pages: 150 letters on the first, no text layer on the second.\<close>

definition doc_text_first :: document where
  "doc_text_first =
     [\<lparr>get_text = replicate 150 CHR ''a'', get_pixmap_png = ''img1''\<rparr>,
      \<lparr>get_text = [], get_pixmap_png = ''img2''\<rparr>]"

text \<open>Three scanned pages; the provider finds no line on the second.\<close>

definition doc_scanned :: document where
  "doc_scanned = [scanned_page ''first'', scanned_page ''blank'', scanned_page ''third'']"

text \<open>Three scanned pages; the provider refuses the second.\<close>

definition doc_denied :: document where
  "doc_denied = [scanned_page ''first'', scanned_page ''denied'', scanned_page ''third'']"

text \<open>What the structured gateway returns for the pages of \<open>doc_scanned\<close>, asking the
  sample provider.\<close>

definition sample_fragment :: "string \<Rightarrow> rat \<Rightarrow> fragment" where
  "sample_fragment t c =
     \<lparr>text_of = t, confidence = c, geometry = \<lparr>BoundingBox = (0, 0, 1, 1), Polygon = []\<rparr>\<rparr>"

definition scanned_results :: "page_result list" where
  "scanned_results =
     [\<lparr>raw_text = ''first'', lines = [sample_fragment ''first'' 90],
       words = [sample_fragment ''first'' 80]\<rparr>,
      \<lparr>raw_text = [], lines = [], words = []\<rparr>,
      \<lparr>raw_text = ''third'', lines = [sample_fragment ''third'' 90],
       words = [sample_fragment ''third'' 80]\<rparr>]"

section \<open>The loops as comprehensions\<close>

lemma collect_text_lines_eq:
  "collect_text_lines bs acc = acc @ map Text (filter (\<lambda>b. BlockType b = ''LINE'') bs)"
  by (induction bs arbitrary: acc) auto

lemma collect_structure_eq:
  "collect_structure bs ls ws =
     (ls @ map fragment_of (filter (\<lambda>b. BlockType b = ''LINE'') bs),
      ws @ map fragment_of (filter (\<lambda>b. BlockType b = ''WORD'') bs))"
  by (induction bs arbitrary: ls ws) auto

lemma pdf_to_images_eq: "pdf_to_images doc = map get_pixmap_png doc"
proof -
  have "pdf_to_images_loop ps acc = acc @ map get_pixmap_png ps" for ps acc
    by (induction ps arbitrary: acc) auto
  then show ?thesis by (simp add: pdf_to_images_def)
qed

lemma probe_text_layer_eq:
  "probe_text_layer ps acc = acc @ filter (\<lambda>t. t \<noteq> []) (map (\<lambda>p. strip (get_text p)) ps)"
  by (induction ps arbitrary: acc) auto

lemma text_layer_loop_eq:
  "text_layer_loop n ts acc =
     acc @ map (\<lambda>(i, t). ''--- Page '' @ str_nat i @ '' (Text Layer) ---'' @ NL @ t) (enumerate n ts)"
  by (induction ts arbitrary: n acc) auto

lemma first_failure:
  assumes "\<exists>x\<in>set xs. isl (f x)"
  shows "\<exists>pre x post e. xs = pre @ x # post \<and> (\<forall>q\<in>set pre. \<not> isl (f q)) \<and> f x = Inl e"
proof -
  from assms obtain pre x post where "xs = pre @ x # post" "isl (f x)" "\<forall>q\<in>set pre. \<not> isl (f q)"
    using split_list_first_prop [of xs "\<lambda>x. isl (f x)"] by blast
  moreover from \<open>isl (f x)\<close> obtain e where "f x = Inl e" by (cases "f x") auto
  ultimately show ?thesis by blast
qed

lemma extract_text_loop_ok:
  "map (textract_extract_text client) imgs = map Inr ts \<Longrightarrow>
   extract_text_loop client n imgs acc =
     Inr (acc @ map (\<lambda>(i, t). ''--- Page '' @ str_nat i @ '' ---'' @ NL @ strip t)
                  (filter (\<lambda>(i, t). strip t \<noteq> []) (enumerate n ts)))"
proof (induction imgs arbitrary: n acc ts)
  case Nil
  then show ?case by simp
next
  case (Cons img imgs)
  then obtain t ts' where ts: "ts = t # ts'" by (cases ts) auto
  with Cons.prems have h: "textract_extract_text client img = Inr t"
    and r: "map (textract_extract_text client) imgs = map Inr ts'" by auto
  show ?case by (simp add: h ts Cons.IH [OF r])
qed

lemma extract_text_loop_fail:
  "\<forall>q\<in>set pre. \<not> isl (textract_extract_text client q) \<Longrightarrow>
   textract_extract_text client img = Inl e \<Longrightarrow>
   extract_text_loop client n (pre @ img # post) acc = Inl e"
proof (induction pre arbitrary: n acc)
  case Nil
  then show ?case by simp
next
  case (Cons q pre)
  then obtain t where "textract_extract_text client q = Inr t"
    by (cases "textract_extract_text client q") auto
  with Cons show ?case by simp
qed

lemma ocr_loop_ok:
  "map (textract_extract_text client) imgs = map Inr ts \<Longrightarrow>
   ocr_loop client n imgs acc =
     Inr (acc @ map (\<lambda>(i, t). ''--- Page '' @ str_nat i @ '' (OCR) ---'' @ NL @ strip t)
                  (filter (\<lambda>(i, t). strip t \<noteq> []) (enumerate n ts)))"
proof (induction imgs arbitrary: n acc ts)
  case Nil
  then show ?case by simp
next
  case (Cons img imgs)
  then obtain t ts' where ts: "ts = t # ts'" by (cases ts) auto
  with Cons.prems have h: "textract_extract_text client img = Inr t"
    and r: "map (textract_extract_text client) imgs = map Inr ts'" by auto
  show ?case by (simp add: h ts Cons.IH [OF r])
qed

lemma ocr_loop_fail:
  "\<forall>q\<in>set pre. \<not> isl (textract_extract_text client q) \<Longrightarrow>
   textract_extract_text client img = Inl e \<Longrightarrow>
   ocr_loop client n (pre @ img # post) acc = Inl e"
proof (induction pre arbitrary: n acc)
  case Nil
  then show ?case by simp
next
  case (Cons q pre)
  then obtain t where "textract_extract_text client q = Inr t"
    by (cases "textract_extract_text client q") auto
  with Cons show ?case by simp
qed

lemma average_confidence_of_eq:
  "average_confidence_of ls =
     Inr (if ls = [] then 0 else sum_list (map confidence ls) / of_nat (length ls))"
  by (simp add: average_confidence_of_def truediv_def)

lemma json_loop_ok:
  "map (textract_extract_text_with_structure client) imgs = map Inr prs \<Longrightarrow>
   json_loop client n imgs pd tb =
     Inr (pd @ map (\<lambda>(i, pr).
                 \<lparr>page_number = i, page_text = strip (raw_text pr),
                  lines_count = length (lines pr), words_count = length (words pr),
                  average_confidence =
                    (if lines pr = [] then 0
                     else sum_list (map confidence (lines pr)) / of_nat (length (lines pr)))\<rparr>)
               (filter (\<lambda>(i, pr). strip (raw_text pr) \<noteq> []) (enumerate n prs)),
          tb @ map (\<lambda>pr. strip (raw_text pr)) (filter (\<lambda>pr. strip (raw_text pr) \<noteq> []) prs))"
proof (induction imgs arbitrary: n pd tb prs)
  case Nil
  then show ?case by simp
next
  case (Cons img imgs)
  then obtain pr prs' where prs: "prs = pr # prs'" by (cases prs) auto
  with Cons.prems have h: "textract_extract_text_with_structure client img = Inr pr"
    and r: "map (textract_extract_text_with_structure client) imgs = map Inr prs'" by auto
  show ?case
    by (simp add: h prs Cons.IH [OF r] average_confidence_of_eq)
qed

lemma json_loop_fail:
  "\<forall>q\<in>set pre. \<not> isl (textract_extract_text_with_structure client q) \<Longrightarrow>
   textract_extract_text_with_structure client img = Inl e \<Longrightarrow>
   json_loop client n (pre @ img # post) pd tb = Inl (Http e)"
proof (induction pre arbitrary: n pd tb)
  case Nil
  then show ?case by simp
next
  case (Cons q pre)
  then obtain pr where "textract_extract_text_with_structure client q = Inr pr"
    by (cases "textract_extract_text_with_structure client q") auto
  with Cons show ?case by (simp add: average_confidence_of_eq)
qed

lemma json_loop_no_other: "json_loop client n imgs pd tb \<noteq> Inl (Other e)"
  by (induction imgs arbitrary: n pd tb)
     (auto simp: average_confidence_of_eq split: sum.splits)

lemma detailed_loop_ok:
  "map (textract_extract_text_with_structure client) imgs = map Inr prs \<Longrightarrow>
   detailed_loop client n imgs acc =
     Inr (acc @ map (\<lambda>(i, pr). \<lparr>d_page_number = i, d_raw_text = raw_text pr,
                                 d_lines = lines pr, d_words = words pr\<rparr>) (enumerate n prs))"
proof (induction imgs arbitrary: n acc prs)
  case Nil
  then show ?case by simp
next
  case (Cons img imgs)
  then obtain pr prs' where prs: "prs = pr # prs'" by (cases prs) auto
  with Cons.prems have h: "textract_extract_text_with_structure client img = Inr pr"
    and r: "map (textract_extract_text_with_structure client) imgs = map Inr prs'" by auto
  show ?case by (simp add: h prs Cons.IH [OF r])
qed

lemma detailed_loop_fail:
  "\<forall>q\<in>set pre. \<not> isl (textract_extract_text_with_structure client q) \<Longrightarrow>
   textract_extract_text_with_structure client img = Inl e \<Longrightarrow>
   detailed_loop client n (pre @ img # post) acc = Inl e"
proof (induction pre arbitrary: n acc)
  case Nil
  then show ?case by simp
next
  case (Cons q pre)
  then obtain pr where "textract_extract_text_with_structure client q = Inr pr"
    by (cases "textract_extract_text_with_structure client q") auto
  with Cons show ?case by simp
qed

lemma substantial_filter:
  "substantial (filter (\<lambda>t. t \<noteq> []) (map (\<lambda>p. strip (get_text p)) doc)) =
     list_ex (\<lambda>p. length (strip (get_text p)) > 100) doc"
proof (induction doc)
  case Nil
  then show ?case by (simp add: substantial_def)
next
  case (Cons p ps)
  then show ?case by (auto simp: substantial_def)
qed

lemma substantial_probe:
  "substantial (probe_text_layer doc []) = list_ex (\<lambda>p. length (strip (get_text p)) > 100) doc"
  by (simp add: probe_text_layer_eq substantial_filter)

section \<open>What the gateway raises\<close>

lemma textract_extract_text_cases:
  "textract_extract_text client image_bytes =
     (case client image_bytes of
        Response blocks \<Rightarrow> Inr (join NL (map Text (filter (\<lambda>b. BlockType b = ''LINE'') blocks)))
      | ClientError error_code \<Rightarrow>
          Inl (if error_code = ''UnrecognizedClientException'' then HTTPException 401
                 ''Invalid AWS credentials. Please check your access key and secret key.''
               else if error_code = ''AccessDeniedException'' then HTTPException 403
                 ''AWS credentials don't have permission to access Textract.''
               else if error_code = ''InvalidParameterException'' then HTTPException 400
                 ''Invalid parameters sent to Textract.''
               else HTTPException 500 (''AWS Textract error: '' @ error_code))
      | OtherException e \<Rightarrow> Inl (HTTPException 500 (''Text extraction failed: '' @ e)))"
  by (simp add: textract_extract_text_def collect_text_lines_eq split: detect_result.split)

lemma structure_cases:
  "textract_extract_text_with_structure client image_bytes =
     (case client image_bytes of
        Response blocks \<Rightarrow>
          Inr \<lparr>raw_text = join NL (map Text (filter (\<lambda>b. BlockType b = ''LINE'') blocks)),
               lines = map fragment_of (filter (\<lambda>b. BlockType b = ''LINE'') blocks),
               words = map fragment_of (filter (\<lambda>b. BlockType b = ''WORD'') blocks)\<rparr>
      | ClientError error_code \<Rightarrow>
          Inl (if error_code = ''UnrecognizedClientException'' then HTTPException 401
                 ''Invalid AWS credentials.''
               else if error_code = ''AccessDeniedException'' then HTTPException 403
                 ''Insufficient AWS permissions for Textract.''
               else HTTPException 500 (''AWS Textract error: '' @ error_code))
      | OtherException e \<Rightarrow> Inl (HTTPException 500 (''Text extraction failed: '' @ e)))"
  by (simp add: textract_extract_text_with_structure_def collect_structure_eq fragment_of_def
      comp_def split: detect_result.split)

lemma plain_not_only_pdf:
  "textract_extract_text client image_bytes \<noteq> Inl only_pdf"
  by (auto simp: textract_extract_text_cases only_pdf_def split: detect_result.splits)

lemma structure_not_only_pdf:
  "textract_extract_text_with_structure client image_bytes \<noteq> Inl only_pdf"
  by (auto simp: structure_cases only_pdf_def split: detect_result.splits)

lemma structure_raw_text:
  "textract_extract_text_with_structure client image_bytes = Inr r \<Longrightarrow>
   raw_text r = join NL (map text_of (lines r))"
  by (auto simp: structure_cases fragment_of_def comp_def split: detect_result.splits if_splits)

section \<open>What the loops raise and return\<close>

lemma extract_text_loop_error:
  "extract_text_loop client n imgs acc = Inl e \<Longrightarrow>
   \<exists>img. textract_extract_text client img = Inl e"
  by (induction imgs arbitrary: n acc) (auto split: sum.splits)

lemma ocr_loop_error:
  "ocr_loop client n imgs acc = Inl e \<Longrightarrow> \<exists>img. textract_extract_text client img = Inl e"
  by (induction imgs arbitrary: n acc) (auto split: sum.splits)

lemma json_loop_error:
  "json_loop client n imgs pd tb = Inl x \<Longrightarrow>
   \<exists>e img. x = Http e \<and> textract_extract_text_with_structure client img = Inl e"
  by (induction imgs arbitrary: n pd tb)
     (auto simp: average_confidence_of_eq split: sum.splits if_splits)

lemma detailed_loop_error:
  "detailed_loop client n imgs acc = Inl e \<Longrightarrow>
   \<exists>img. textract_extract_text_with_structure client img = Inl e"
  by (induction imgs arbitrary: n acc) (auto split: sum.splits)

lemma all_succeed:
  "\<forall>x\<in>set xs. \<not> isl (f x) \<Longrightarrow> \<exists>ys. map f xs = map Inr ys"
proof (induction xs)
  case Nil
  then show ?case by simp
next
  case (Cons x xs)
  then obtain ys where ys: "map f xs = map Inr ys" by auto
  from Cons.prems obtain y where "f x = Inr y" by (cases "f x") auto
  with ys have "map f (x # xs) = map Inr (y # ys)" by simp
  then show ?case ..
qed

lemma extract_text_loop_all_pages:
  "extract_text_loop client n imgs acc = Inr x \<Longrightarrow>
   \<exists>ts. map (textract_extract_text client) imgs = map Inr ts"
proof -
  have "extract_text_loop client n imgs acc = Inr x \<Longrightarrow>
      \<forall>img\<in>set imgs. \<not> isl (textract_extract_text client img)"
    by (induction imgs arbitrary: n acc) (auto split: sum.splits)
  then show "extract_text_loop client n imgs acc = Inr x \<Longrightarrow> ?thesis"
    by (rule all_succeed)
qed

lemma ocr_loop_all_pages:
  "ocr_loop client n imgs acc = Inr x \<Longrightarrow>
   \<exists>ts. map (textract_extract_text client) imgs = map Inr ts"
proof -
  have "ocr_loop client n imgs acc = Inr x \<Longrightarrow>
      \<forall>img\<in>set imgs. \<not> isl (textract_extract_text client img)"
    by (induction imgs arbitrary: n acc) (auto split: sum.splits)
  then show "ocr_loop client n imgs acc = Inr x \<Longrightarrow> ?thesis"
    by (rule all_succeed)
qed

lemma detailed_loop_all_pages:
  "detailed_loop client n imgs acc = Inr x \<Longrightarrow>
   \<exists>prs. map (textract_extract_text_with_structure client) imgs = map Inr prs"
proof -
  have "detailed_loop client n imgs acc = Inr x \<Longrightarrow>
      \<forall>img\<in>set imgs. \<not> isl (textract_extract_text_with_structure client img)"
    by (induction imgs arbitrary: n acc) (auto split: sum.splits)
  then show "detailed_loop client n imgs acc = Inr x \<Longrightarrow> ?thesis"
    by (rule all_succeed)
qed

lemma json_loop_all_pages:
  "json_loop client n imgs pd tb = Inr x \<Longrightarrow>
   \<exists>prs. map (textract_extract_text_with_structure client) imgs = map Inr prs"
proof -
  have "json_loop client n imgs pd tb = Inr x \<Longrightarrow>
      \<forall>img\<in>set imgs. \<not> isl (textract_extract_text_with_structure client img)"
    by (induction imgs arbitrary: n pd tb)
       (auto simp: average_confidence_of_eq split: sum.splits if_splits)
  then show "json_loop client n imgs pd tb = Inr x \<Longrightarrow> ?thesis"
    by (rule all_succeed)
qed

section \<open>C1: which documents take the text-layer path\<close>

text \<open>
  C1, as amended. For an upload that passes the extension check and opens as \<open>doc\<close>, the
  handler of /extract-text-with-fallback/ takes the text-layer path (its test
  \<open>substantial\<close> on the probed text holds) exactly when some page's embedded text is
  longer than 100 characters after its surrounding whitespace is stripped; its answer is
  then the text-layer blocks of the pages that are not blank.
  Otherwise it sends the image of every page, in order, through the OCR loop and answers
  with that loop's result. In particular it takes the OCR path when every page's text
  layer is empty.
\<close>

theorem fallback_selects_path:
  assumes "endswith (lower (filename file)) ''.pdf''"
    and "fitz_open (contents file) = Inr doc"
  shows "substantial (probe_text_layer doc []) =
       list_ex (\<lambda>p. length (strip (get_text p)) > 100) doc
    \<and> extract_text_with_fallback client fitz_open file =
     (if list_ex (\<lambda>p. length (strip (get_text p)) > 100) doc
      then Inr (join (NL @ NL)
             (text_layer_loop 1 (filter (\<lambda>t. t \<noteq> []) (map (\<lambda>p. strip (get_text p)) doc)) []))
      else (case ocr_loop client 1 (map get_pixmap_png doc) [] of
              Inl e \<Rightarrow> Inl e
            | Inr all_text \<Rightarrow> Inr (join (NL @ NL) all_text)))
    \<and> (list_all (\<lambda>p. get_text p = []) doc \<longrightarrow>
         extract_text_with_fallback client fitz_open file =
           (case ocr_loop client 1 (map get_pixmap_png doc) [] of
              Inl e \<Rightarrow> Inl e
            | Inr all_text \<Rightarrow> Inr (join (NL @ NL) all_text)))"
proof -
  have main: "extract_text_with_fallback client fitz_open file =
     (if list_ex (\<lambda>p. length (strip (get_text p)) > 100) doc
      then Inr (join (NL @ NL)
             (text_layer_loop 1 (filter (\<lambda>t. t \<noteq> []) (map (\<lambda>p. strip (get_text p)) doc)) []))
      else (case ocr_loop client 1 (map get_pixmap_png doc) [] of
              Inl e \<Rightarrow> Inl e
            | Inr all_text \<Rightarrow> Inr (join (NL @ NL) all_text)))"
    using assms
    by (simp add: extract_text_with_fallback_def extract_text_with_fallback_try_def
        substantial_filter pdf_to_images_eq Let_def probe_text_layer_eq split: sum.split)
  have "\<not> list_ex (\<lambda>p. length (strip (get_text p)) > 100) doc"
    if "list_all (\<lambda>p. get_text p = []) doc"
    using that by (auto simp: list_ex_iff list_all_iff strip_def)
  with main substantial_probe [of doc] show ?thesis by simp
qed

text \<open>The theorem on the three scanned pages, none with a text layer: the OCR path, page
  numbers kept, the blank second page left out. And on the document with 150 letters on
  its first page and a second page without text: the text-layer path.\<close>

theorem fallback_selects_path_witness:
  "endswith (lower (filename (upload ''scan.pdf''))) ''.pdf''
   \<and> opens_as doc_scanned (contents (upload ''scan.pdf'')) = Inr doc_scanned
   \<and> list_all (\<lambda>p. get_text p = []) doc_scanned
   \<and> extract_text_with_fallback sample_client (opens_as doc_scanned) (upload ''scan.pdf'')
       = Inr (''--- Page 1 (OCR) ---'' @ NL @ ''first'' @ NL @ NL @
              ''--- Page 3 (OCR) ---'' @ NL @ ''third'')
   \<and> opens_as doc_text_first (contents (upload ''scan.pdf'')) = Inr doc_text_first
   \<and> list_ex (\<lambda>p. length (strip (get_text p)) > 100) doc_text_first
   \<and> extract_text_with_fallback sample_client (opens_as doc_text_first) (upload ''scan.pdf'')
       = Inr (''--- Page 1 (Text Layer) ---'' @ NL @ replicate 150 CHR ''a'')"
proof -
  have h1: "endswith (lower (filename (upload ''scan.pdf''))) ''.pdf''"
    by code_simp
  have h2: "opens_as doc_scanned (contents (upload ''scan.pdf'')) = Inr doc_scanned"
    by (simp add: opens_as_def)
  have h3: "list_all (\<lambda>p. get_text p = []) doc_scanned"
    by (simp add: doc_scanned_def scanned_page_def)
  have h4: "opens_as doc_text_first (contents (upload ''scan.pdf'')) = Inr doc_text_first"
    by (simp add: opens_as_def)
  have h5: "list_ex (\<lambda>p. length (strip (get_text p)) > 100) doc_text_first"
    by code_simp
  have run: "(case ocr_loop sample_client 1 (map get_pixmap_png doc_scanned) [] of
                Inl e \<Rightarrow> Inl e
              | Inr all_text \<Rightarrow> Inr (join (NL @ NL) all_text))
             = (Inr (''--- Page 1 (OCR) ---'' @ NL @ ''first'' @ NL @ NL @
                     ''--- Page 3 (OCR) ---'' @ NL @ ''third'') :: HTTPException + string)"
    by code_simp
  have layer: "join (NL @ NL)
      (text_layer_loop 1
        (filter (\<lambda>t. t \<noteq> []) (map (\<lambda>p. strip (get_text p)) doc_text_first)) [])
      = ''--- Page 1 (Text Layer) ---'' @ NL @ replicate 150 CHR ''a''"
    by code_simp
  have "extract_text_with_fallback sample_client (opens_as doc_scanned) (upload ''scan.pdf'')
       = (case ocr_loop sample_client 1 (map get_pixmap_png doc_scanned) [] of
            Inl e \<Rightarrow> Inl e
          | Inr all_text \<Rightarrow> Inr (join (NL @ NL) all_text))"
    using fallback_selects_path [of "upload ''scan.pdf''" "opens_as doc_scanned" doc_scanned
        sample_client, OF h1 h2] h3
    by blast
  then have r1: "extract_text_with_fallback sample_client (opens_as doc_scanned) (upload ''scan.pdf'')
       = Inr (''--- Page 1 (OCR) ---'' @ NL @ ''first'' @ NL @ NL @
              ''--- Page 3 (OCR) ---'' @ NL @ ''third'')"
    using run by (rule trans)
  have "extract_text_with_fallback sample_client (opens_as doc_text_first) (upload ''scan.pdf'')
       = Inr (join (NL @ NL)
           (text_layer_loop 1
             (filter (\<lambda>t. t \<noteq> []) (map (\<lambda>p. strip (get_text p)) doc_text_first)) []))"
    using fallback_selects_path [of "upload ''scan.pdf''" "opens_as doc_text_first" doc_text_first
        sample_client, OF h1 h4] h5
    by simp
  then have r2:
    "extract_text_with_fallback sample_client (opens_as doc_text_first) (upload ''scan.pdf'')
       = Inr (''--- Page 1 (Text Layer) ---'' @ NL @ replicate 150 CHR ''a'')"
    unfolding layer .
  from h1 h2 h3 r1 h4 h5 r2 show ?thesis by blast
qed

text \<open>
  The claim as the specification words it fails on a page of 60 letters followed by 50
  spaces: its embedded text is non-empty and 110 characters long, so the specification's
  rule calls the document text-based, while the handler measures the 60 stripped
  characters and sends the page to OCR.
\<close>

theorem fallback_untrimmed_counterexample:
  "spec_text_based doc_padded
   \<and> \<not> substantial (probe_text_layer doc_padded [])
   \<and> extract_text_with_fallback sample_client (opens_as doc_padded) (upload ''padded.pdf'')
       = Inr (''--- Page 1 (OCR) ---'' @ NL @ ''scan'')"
  by code_simp

section \<open>C2: page numbers on the text-layer path\<close>

text \<open>
  C2. The claim asks that a text-layer block carry the page's own 1-based index. On the
  two-page document whose first page has no text layer and whose second page has 150
  letters, the handler labels the text of page 2 as Page 1: the loop numbers the entries
  of \<open>pymupdf_text\<close>, from which the blank pages are gone.
\<close>

theorem fallback_text_layer_renumbers:
  "extract_text_with_fallback sample_client (opens_as doc_blank_first) (upload ''notes.pdf'')
     = Inr (''--- Page 1 (Text Layer) ---'' @ NL @ replicate 150 CHR ''a'')"
  by code_simp

text \<open>The scenario of the specification, text on page 1 and none on page 2, does give
  the one block Page 1 (Text Layer).\<close>

lemma fallback_text_first_scenario:
  "extract_text_with_fallback sample_client (opens_as doc_text_first) (upload ''notes.pdf'')
     = Inr (''--- Page 1 (Text Layer) ---'' @ NL @ replicate 150 CHR ''a'')"
  by code_simp

section \<open>C3: the status of each provider error\<close>

text \<open>
  C3. The plain function answers InvalidParameterException with status 400; the
  structured function has no branch for that code and answers it with status 500, the
  code in the message.
\<close>

theorem structure_invalid_parameter_500:
  "textract_extract_text_with_structure invalid_parameter_client test_image
     = Inl (HTTPException 500 ''AWS Textract error: InvalidParameterException'')
   \<and> textract_extract_text invalid_parameter_client test_image
     = Inl (HTTPException 400 ''Invalid parameters sent to Textract.'')"
  by (simp add: textract_extract_text_with_structure_def textract_extract_text_def
      invalid_parameter_client_def)

section \<open>C4: a failing page aborts the request\<close>

text \<open>
  C4. For an upload that passes the extension check and opens as \<open>doc\<close>: if the gateway
  fails on some page, the request fails with the gateway's error on the first such page,
  so no handler returns a result. This holds for /extract-text/, for
  /extract-text-with-fallback/ on its OCR path, and, with the structured gateway, for
  /extract-text-json/ and /extract-text-detailed/.
\<close>

theorem ocr_failure_aborts:
  assumes "endswith (lower (filename file)) ''.pdf''"
    and "fitz_open (contents file) = Inr doc"
  shows "((\<exists>p\<in>set doc. isl (textract_extract_text client (get_pixmap_png p))) \<longrightarrow>
            (\<exists>pre p post e. doc = pre @ p # post
               \<and> (\<forall>q\<in>set pre. \<not> isl (textract_extract_text client (get_pixmap_png q)))
               \<and> textract_extract_text client (get_pixmap_png p) = Inl e
               \<and> extract_text client fitz_open file = Inl e
               \<and> (\<not> list_ex (\<lambda>p. length (strip (get_text p)) > 100) doc \<longrightarrow>
                    extract_text_with_fallback client fitz_open file = Inl e)))
       \<and> ((\<exists>p\<in>set doc. isl (textract_extract_text_with_structure client (get_pixmap_png p))) \<longrightarrow>
            (\<exists>pre p post e. doc = pre @ p # post
               \<and> (\<forall>q\<in>set pre. \<not> isl (textract_extract_text_with_structure client (get_pixmap_png q)))
               \<and> textract_extract_text_with_structure client (get_pixmap_png p) = Inl e
               \<and> extract_text_json client fitz_open file = Inl e
               \<and> extract_text_detailed client fitz_open file = Inl e))"
proof (intro conjI impI)
  assume "\<exists>p\<in>set doc. isl (textract_extract_text client (get_pixmap_png p))"
  then obtain pre p post e where d: "doc = pre @ p # post"
    and ok: "\<forall>q\<in>set pre. \<not> isl (textract_extract_text client (get_pixmap_png q))"
    and bad: "textract_extract_text client (get_pixmap_png p) = Inl e"
    using first_failure [of doc "\<lambda>p. textract_extract_text client (get_pixmap_png p)"] by blast
  have imgs: "map get_pixmap_png doc = map get_pixmap_png pre @ get_pixmap_png p # map get_pixmap_png post"
    by (simp add: d)
  have ok': "\<forall>q\<in>set (map get_pixmap_png pre). \<not> isl (textract_extract_text client q)"
    using ok by simp
  have l1: "extract_text_loop client 1 (map get_pixmap_png doc) [] = Inl e"
    unfolding imgs by (rule extract_text_loop_fail [OF ok' bad])
  have l2: "ocr_loop client 1 (map get_pixmap_png doc) [] = Inl e"
    unfolding imgs by (rule ocr_loop_fail [OF ok' bad])
  have r1: "extract_text client fitz_open file = Inl e"
    using assms l1 by (simp add: extract_text_def extract_text_try_def pdf_to_images_eq)
  have r2: "extract_text_with_fallback client fitz_open file = Inl e"
    if "\<not> list_ex (\<lambda>p. length (strip (get_text p)) > 100) doc"
    using assms l2 that
    by (simp add: extract_text_with_fallback_def extract_text_with_fallback_try_def
        pdf_to_images_eq substantial_probe)
  from d ok bad r1 r2
  show "\<exists>pre p post e. doc = pre @ p # post
               \<and> (\<forall>q\<in>set pre. \<not> isl (textract_extract_text client (get_pixmap_png q)))
               \<and> textract_extract_text client (get_pixmap_png p) = Inl e
               \<and> extract_text client fitz_open file = Inl e
               \<and> (\<not> list_ex (\<lambda>p. length (strip (get_text p)) > 100) doc \<longrightarrow>
                    extract_text_with_fallback client fitz_open file = Inl e)"
    by blast
next
  assume "\<exists>p\<in>set doc. isl (textract_extract_text_with_structure client (get_pixmap_png p))"
  then obtain pre p post e where d: "doc = pre @ p # post"
    and ok: "\<forall>q\<in>set pre. \<not> isl (textract_extract_text_with_structure client (get_pixmap_png q))"
    and bad: "textract_extract_text_with_structure client (get_pixmap_png p) = Inl e"
    using first_failure [of doc "\<lambda>p. textract_extract_text_with_structure client (get_pixmap_png p)"]
    by blast
  have imgs: "map get_pixmap_png doc = map get_pixmap_png pre @ get_pixmap_png p # map get_pixmap_png post"
    by (simp add: d)
  have ok': "\<forall>q\<in>set (map get_pixmap_png pre). \<not> isl (textract_extract_text_with_structure client q)"
    using ok by simp
  have l1: "json_loop client 1 (map get_pixmap_png doc) [] [] = Inl (Http e)"
    unfolding imgs by (rule json_loop_fail [OF ok' bad])
  have l2: "detailed_loop client 1 (map get_pixmap_png doc) [] = Inl e"
    unfolding imgs by (rule detailed_loop_fail [OF ok' bad])
  have r1: "extract_text_json client fitz_open file = Inl e"
    using assms l1 by (simp add: extract_text_json_def extract_text_json_try_def pdf_to_images_eq)
  have r2: "extract_text_detailed client fitz_open file = Inl e"
    using assms l2
    by (simp add: extract_text_detailed_def extract_text_detailed_try_def pdf_to_images_eq)
  from d ok bad r1 r2
  show "\<exists>pre p post e. doc = pre @ p # post
               \<and> (\<forall>q\<in>set pre. \<not> isl (textract_extract_text_with_structure client (get_pixmap_png q)))
               \<and> textract_extract_text_with_structure client (get_pixmap_png p) = Inl e
               \<and> extract_text_json client fitz_open file = Inl e
               \<and> extract_text_detailed client fitz_open file = Inl e"
    by blast
qed

text \<open>The theorem on three scanned pages of which the sample provider refuses the second:
  all four handlers fail with status 403, and the text of the first page is in no
  answer.\<close>

theorem ocr_failure_aborts_witness:
  "endswith (lower (filename (upload ''scan.pdf''))) ''.pdf''
   \<and> opens_as doc_denied (contents (upload ''scan.pdf'')) = Inr doc_denied
   \<and> list_ex (\<lambda>p. isl (textract_extract_text sample_client (get_pixmap_png p))) doc_denied
   \<and> list_ex (\<lambda>p. isl (textract_extract_text_with_structure sample_client (get_pixmap_png p)))
       doc_denied
   \<and> extract_text sample_client (opens_as doc_denied) (upload ''scan.pdf'')
       = Inl (HTTPException 403 ''AWS credentials don't have permission to access Textract.'')
   \<and> extract_text_with_fallback sample_client (opens_as doc_denied) (upload ''scan.pdf'')
       = Inl (HTTPException 403 ''AWS credentials don't have permission to access Textract.'')
   \<and> extract_text_json sample_client (opens_as doc_denied) (upload ''scan.pdf'')
       = Inl (HTTPException 403 ''Insufficient AWS permissions for Textract.'')
   \<and> extract_text_detailed sample_client (opens_as doc_denied) (upload ''scan.pdf'')
       = Inl (HTTPException 403 ''Insufficient AWS permissions for Textract.'')"
proof -
  have h1: "endswith (lower (filename (upload ''scan.pdf''))) ''.pdf''"
    by code_simp
  have h2: "opens_as doc_denied (contents (upload ''scan.pdf'')) = Inr doc_denied"
    by (simp add: opens_as_def)
  have f1: "list_ex (\<lambda>p. isl (textract_extract_text sample_client (get_pixmap_png p))) doc_denied"
    by code_simp
  have f2: "list_ex (\<lambda>p. isl (textract_extract_text_with_structure sample_client (get_pixmap_png p)))
      doc_denied"
    by code_simp
  have n: "\<not> list_ex (\<lambda>p. length (strip (get_text p)) > 100) doc_denied"
    by code_simp
  have e1: "extract_text sample_client (opens_as doc_denied) (upload ''scan.pdf'')
       = Inl (HTTPException 403 ''AWS credentials don't have permission to access Textract.'')"
    by code_simp
  have e2: "extract_text_json sample_client (opens_as doc_denied) (upload ''scan.pdf'')
       = Inl (HTTPException 403 ''Insufficient AWS permissions for Textract.'')"
    by code_simp
  note t = ocr_failure_aborts [of "upload ''scan.pdf''" "opens_as doc_denied" doc_denied
      sample_client, OF h1 h2]
  from t f1 n obtain e where
      "extract_text sample_client (opens_as doc_denied) (upload ''scan.pdf'') = Inl e"
      "extract_text_with_fallback sample_client (opens_as doc_denied) (upload ''scan.pdf'') = Inl e"
    unfolding list_ex_iff by blast
  with e1 have r1: "extract_text_with_fallback sample_client (opens_as doc_denied) (upload ''scan.pdf'')
       = Inl (HTTPException 403 ''AWS credentials don't have permission to access Textract.'')"
    by simp
  from t f2 obtain e' where
      "extract_text_json sample_client (opens_as doc_denied) (upload ''scan.pdf'') = Inl e'"
      "extract_text_detailed sample_client (opens_as doc_denied) (upload ''scan.pdf'') = Inl e'"
    unfolding list_ex_iff by blast
  with e2 have r2: "extract_text_detailed sample_client (opens_as doc_denied) (upload ''scan.pdf'')
       = Inl (HTTPException 403 ''Insufficient AWS permissions for Textract.'')"
    by simp
  from h1 h2 f1 f2 e1 r1 e2 r2 show ?thesis by blast
qed

section \<open>C5: blank pages leave no block\<close>

text \<open>
  C5. For an upload that passes the extension check and opens as \<open>doc\<close>, the plain-text
  answer is the blocks of the pages whose text is not blank after stripping, joined by a
  blank line; a page whose text is empty or whitespace gives no block. On the OCR path
  (of /extract-text/ and of the fallback handler) the text of a page is what the gateway
  returned for it, \<open>ts\<close>, and every answer comes from such texts; on the text-layer path it
  is the page's embedded text.
\<close>

theorem blank_pages_dropped:
  assumes "endswith (lower (filename file)) ''.pdf''"
    and "fitz_open (contents file) = Inr doc"
  shows "(map (\<lambda>p. textract_extract_text client (get_pixmap_png p)) doc = map Inr ts \<longrightarrow>
            extract_text client fitz_open file =
              Inr (join (NL @ NL)
                (map (\<lambda>(i, t). ''--- Page '' @ str_nat i @ '' ---'' @ NL @ strip t)
                  (filter (\<lambda>(i, t). strip t \<noteq> []) (enumerate 1 ts))))
            \<and> (\<not> list_ex (\<lambda>p. length (strip (get_text p)) > 100) doc \<longrightarrow>
                 extract_text_with_fallback client fitz_open file =
                   Inr (join (NL @ NL)
                     (map (\<lambda>(i, t). ''--- Page '' @ str_nat i @ '' (OCR) ---'' @ NL @ strip t)
                       (filter (\<lambda>(i, t). strip t \<noteq> []) (enumerate 1 ts))))))
       \<and> (list_ex (\<lambda>p. length (strip (get_text p)) > 100) doc \<longrightarrow>
            extract_text_with_fallback client fitz_open file =
              Inr (join (NL @ NL)
                (map (\<lambda>(i, t). ''--- Page '' @ str_nat i @ '' (Text Layer) ---'' @ NL @ t)
                  (enumerate 1 (filter (\<lambda>t. t \<noteq> []) (map (\<lambda>p. strip (get_text p)) doc))))))
       \<and> (extract_text client fitz_open file = Inr s \<longrightarrow>
            (\<exists>ts. map (\<lambda>p. textract_extract_text client (get_pixmap_png p)) doc = map Inr ts))
       \<and> (\<not> list_ex (\<lambda>p. length (strip (get_text p)) > 100) doc \<longrightarrow>
            extract_text_with_fallback client fitz_open file = Inr s' \<longrightarrow>
            (\<exists>ts. map (\<lambda>p. textract_extract_text client (get_pixmap_png p)) doc = map Inr ts))"
proof (intro conjI impI)
  assume "map (\<lambda>p. textract_extract_text client (get_pixmap_png p)) doc = map Inr ts"
  then have ts: "map (textract_extract_text client) (map get_pixmap_png doc) = map Inr ts"
    by (simp add: comp_def)
  show "extract_text client fitz_open file =
          Inr (join (NL @ NL)
            (map (\<lambda>(i, t). ''--- Page '' @ str_nat i @ '' ---'' @ NL @ strip t)
              (filter (\<lambda>(i, t). strip t \<noteq> []) (enumerate 1 ts))))"
    using assms
    by (simp add: extract_text_def extract_text_try_def pdf_to_images_eq
        extract_text_loop_ok [OF ts])
  assume "\<not> list_ex (\<lambda>p. length (strip (get_text p)) > 100) doc"
  then show "extract_text_with_fallback client fitz_open file =
          Inr (join (NL @ NL)
            (map (\<lambda>(i, t). ''--- Page '' @ str_nat i @ '' (OCR) ---'' @ NL @ strip t)
              (filter (\<lambda>(i, t). strip t \<noteq> []) (enumerate 1 ts))))"
    using assms
    by (simp add: extract_text_with_fallback_def extract_text_with_fallback_try_def
        pdf_to_images_eq substantial_probe ocr_loop_ok [OF ts])
next
  assume "list_ex (\<lambda>p. length (strip (get_text p)) > 100) doc"
  then show "extract_text_with_fallback client fitz_open file =
          Inr (join (NL @ NL)
            (map (\<lambda>(i, t). ''--- Page '' @ str_nat i @ '' (Text Layer) ---'' @ NL @ t)
              (enumerate 1 (filter (\<lambda>t. t \<noteq> []) (map (\<lambda>p. strip (get_text p)) doc)))))"
    using assms
    by (simp add: extract_text_with_fallback_def extract_text_with_fallback_try_def
        substantial_filter text_layer_loop_eq probe_text_layer_eq Let_def)
next
  assume "extract_text client fitz_open file = Inr s"
  with assms obtain all_text
    where "extract_text_loop client 1 (map get_pixmap_png doc) [] = Inr all_text"
    by (auto simp: extract_text_def extract_text_try_def pdf_to_images_eq
        split: sum.splits py_exception.splits)
  from extract_text_loop_all_pages [OF this]
  show "\<exists>ts. map (\<lambda>p. textract_extract_text client (get_pixmap_png p)) doc = map Inr ts"
    by (simp add: comp_def)
next
  assume "\<not> list_ex (\<lambda>p. length (strip (get_text p)) > 100) doc"
    and "extract_text_with_fallback client fitz_open file = Inr s'"
  with assms obtain all_text
    where "ocr_loop client 1 (map get_pixmap_png doc) [] = Inr all_text"
    by (auto simp: extract_text_with_fallback_def extract_text_with_fallback_try_def
        pdf_to_images_eq substantial_probe split: sum.splits py_exception.splits)
  from ocr_loop_all_pages [OF this]
  show "\<exists>ts. map (\<lambda>p. textract_extract_text client (get_pixmap_png p)) doc = map Inr ts"
    by (simp add: comp_def)
qed

text \<open>The theorem on three scanned pages of which the second is blank, and on the
  document with text on its first page only.\<close>

theorem blank_pages_dropped_witness:
  "endswith (lower (filename (upload ''scan.pdf''))) ''.pdf''
   \<and> map (\<lambda>p. textract_extract_text sample_client (get_pixmap_png p)) doc_scanned
       = map Inr [''first'', [], ''third'']
   \<and> extract_text sample_client (opens_as doc_scanned) (upload ''scan.pdf'')
       = Inr (''--- Page 1 ---'' @ NL @ ''first'' @ NL @ NL @ ''--- Page 3 ---'' @ NL @ ''third'')
   \<and> extract_text_with_fallback sample_client (opens_as doc_scanned) (upload ''scan.pdf'')
       = Inr (''--- Page 1 (OCR) ---'' @ NL @ ''first'' @ NL @ NL @
              ''--- Page 3 (OCR) ---'' @ NL @ ''third'')
   \<and> extract_text_with_fallback sample_client (opens_as doc_text_first) (upload ''scan.pdf'')
       = Inr (''--- Page 1 (Text Layer) ---'' @ NL @ replicate 150 CHR ''a'')"
proof -
  have h1: "endswith (lower (filename (upload ''scan.pdf''))) ''.pdf''"
    by code_simp
  have h2: "opens_as doc_scanned (contents (upload ''scan.pdf'')) = Inr doc_scanned"
    by (simp add: opens_as_def)
  have h3: "opens_as doc_text_first (contents (upload ''scan.pdf'')) = Inr doc_text_first"
    by (simp add: opens_as_def)
  have ts: "map (\<lambda>p. textract_extract_text sample_client (get_pixmap_png p)) doc_scanned
       = map Inr [''first'', [], ''third'']"
    by code_simp
  have n: "\<not> list_ex (\<lambda>p. length (strip (get_text p)) > 100) doc_scanned"
    by code_simp
  have y: "list_ex (\<lambda>p. length (strip (get_text p)) > 100) doc_text_first"
    by code_simp
  have v1: "join (NL @ NL)
      (map (\<lambda>(i, t). ''--- Page '' @ str_nat i @ '' ---'' @ NL @ strip t)
        (filter (\<lambda>(i, t). strip t \<noteq> []) (enumerate 1 [''first'', [], ''third''])))
      = ''--- Page 1 ---'' @ NL @ ''first'' @ NL @ NL @ ''--- Page 3 ---'' @ NL @ ''third''"
    by code_simp
  have v2: "join (NL @ NL)
      (map (\<lambda>(i, t). ''--- Page '' @ str_nat i @ '' (OCR) ---'' @ NL @ strip t)
        (filter (\<lambda>(i, t). strip t \<noteq> []) (enumerate 1 [''first'', [], ''third''])))
      = ''--- Page 1 (OCR) ---'' @ NL @ ''first'' @ NL @ NL @ ''--- Page 3 (OCR) ---'' @ NL @ ''third''"
    by code_simp
  have v3: "join (NL @ NL)
      (map (\<lambda>(i, t). ''--- Page '' @ str_nat i @ '' (Text Layer) ---'' @ NL @ t)
        (enumerate 1 (filter (\<lambda>t. t \<noteq> []) (map (\<lambda>p. strip (get_text p)) doc_text_first))))
      = ''--- Page 1 (Text Layer) ---'' @ NL @ replicate 150 CHR ''a''"
    by code_simp
  note t1 = blank_pages_dropped [of "upload ''scan.pdf''" "opens_as doc_scanned" doc_scanned
      sample_client "[''first'', [], ''third'']", OF h1 h2]
  note t2 = blank_pages_dropped [of "upload ''scan.pdf''" "opens_as doc_text_first" doc_text_first
      sample_client, OF h1 h3]
  from t1 ts have r1: "extract_text sample_client (opens_as doc_scanned) (upload ''scan.pdf'')
       = Inr (''--- Page 1 ---'' @ NL @ ''first'' @ NL @ NL @ ''--- Page 3 ---'' @ NL @ ''third'')"
    unfolding v1 by blast
  from t1 ts n have r2:
    "extract_text_with_fallback sample_client (opens_as doc_scanned) (upload ''scan.pdf'')
       = Inr (''--- Page 1 (OCR) ---'' @ NL @ ''first'' @ NL @ NL @
              ''--- Page 3 (OCR) ---'' @ NL @ ''third'')"
    unfolding v2 by blast
  from t2 y have r3:
    "extract_text_with_fallback sample_client (opens_as doc_text_first) (upload ''scan.pdf'')
       = Inr (''--- Page 1 (Text Layer) ---'' @ NL @ replicate 150 CHR ''a'')"
    unfolding v3 by blast
  from h1 ts r1 r2 r3 show ?thesis by blast
qed

section \<open>C6: the page text is the provider's lines joined by newlines\<close>

text \<open>
  C6. When the provider answers with blocks, the structured function returns a page
  result whose \<open>raw_text\<close> is the newline-joined text of its \<open>lines\<close>, and these are the
  texts of the LINE blocks in the order the provider sent them; the plain function
  returns the same joined string.
\<close>

theorem gateway_text_is_joined_lines:
  assumes "client image_bytes = Response blocks"
  shows "(\<exists>r. textract_extract_text_with_structure client image_bytes = Inr r
            \<and> raw_text r = join NL (map text_of (lines r))
            \<and> map text_of (lines r) = map Text (filter (\<lambda>b. BlockType b = ''LINE'') blocks))
       \<and> textract_extract_text client image_bytes
            = Inr (join NL (map Text (filter (\<lambda>b. BlockType b = ''LINE'') blocks)))"
  using assms
  by (simp add: structure_cases textract_extract_text_cases fragment_of_def comp_def)

theorem gateway_text_is_joined_lines_witness:
  "textract_extract_text two_line_client ''img'' = Inr (''Hello'' @ NL @ ''World'')
   \<and> (\<exists>r. textract_extract_text_with_structure two_line_client ''img'' = Inr r
          \<and> raw_text r = join NL (map text_of (lines r))
          \<and> map text_of (lines r) = [''Hello'', ''World''])"
proof -
  have h: "two_line_client ''img'' =
     Response [sample_block ''PAGE'' [] 0, sample_block ''LINE'' ''Hello'' 99,
       sample_block ''WORD'' ''Hello'' 98, sample_block ''LINE'' ''World'' 97,
       sample_block ''WORD'' ''World'' 96]"
    by (simp add: two_line_client_def)
  from gateway_text_is_joined_lines [where client = two_line_client and image_bytes = "''img''", OF h]
  show ?thesis
    by (simp add: sample_block_def)
qed

section \<open>C7: the mean confidence and its guarded division\<close>

text \<open>
  C7. The \<open>average_confidence\<close> expression never raises: it is the sum of the line
  confidences divided by their number when the page has a line, and 0 when it has none.
  The loop of /extract-text-json/ therefore raises nothing but the gateway's
  \<open>HTTPException\<close>. In every answer of the handler, each entry of \<open>pages\<close> belongs to a
  page of the document that has at least one line, and its \<open>average_confidence\<close> is the
  arithmetic mean of that page's line confidences.
\<close>

theorem average_confidence_guarded:
  "average_confidence_of ls =
     Inr (if ls = [] then 0 else sum_list (map confidence ls) / of_nat (length ls))
   \<and> json_loop client n imgs pd tb \<noteq> Inl (Other e)
   \<and> (endswith (lower (filename file)) ''.pdf'' \<longrightarrow>
       fitz_open (contents file) = Inr doc \<longrightarrow>
       extract_text_json client fitz_open file = Inr j \<longrightarrow>
       (\<forall>pg\<in>set (pages j). \<exists>pr.
          1 \<le> page_number pg \<and> page_number pg \<le> length doc
          \<and> textract_extract_text_with_structure client
               (get_pixmap_png (doc ! (page_number pg - 1))) = Inr pr
          \<and> lines pr \<noteq> []
          \<and> average_confidence pg
               = sum_list (map confidence (lines pr)) / of_nat (length (lines pr))))"
proof (intro conjI impI ballI)
  show "average_confidence_of ls =
     Inr (if ls = [] then 0 else sum_list (map confidence ls) / of_nat (length ls))"
    by (rule average_confidence_of_eq)
  show "json_loop client n imgs pd tb \<noteq> Inl (Other e)"
    by (rule json_loop_no_other)
next
  fix pg
  assume name: "endswith (lower (filename file)) ''.pdf''"
    and opened: "fitz_open (contents file) = Inr doc"
    and res: "extract_text_json client fitz_open file = Inr j"
    and pg: "pg \<in> set (pages j)"
  from name opened res obtain pd' tb'
    where loop: "json_loop client 1 (map get_pixmap_png doc) [] [] = Inr (pd', tb')"
      and pj: "pages j = pd'"
    by (auto simp: extract_text_json_def extract_text_json_try_def pdf_to_images_eq
        split: sum.splits py_exception.splits)
  from json_loop_all_pages [OF loop] obtain prs
    where prs: "map (textract_extract_text_with_structure client) (map get_pixmap_png doc)
      = map Inr prs" ..
  then have "length (map (textract_extract_text_with_structure client) (map get_pixmap_png doc))
      = length (map (Inr :: page_result \<Rightarrow> HTTPException + page_result) prs)"
    by (rule arg_cong)
  then have len: "length prs = length doc"
    by simp
  from loop json_loop_ok [OF prs, of 1 "[]" "[]"] pj pg
  obtain i pr where ipr: "(i, pr) \<in> set (enumerate 1 prs)"
    and nb: "strip (raw_text pr) \<noteq> []"
    and avg: "average_confidence pg =
        (if lines pr = [] then 0
         else sum_list (map confidence (lines pr)) / of_nat (length (lines pr)))"
    and num: "page_number pg = i"
    by auto
  from ipr have i: "1 \<le> i" "i \<le> length prs" and at: "prs ! (i - 1) = pr"
    by (auto simp: in_set_enumerate_eq)
  from i len have lt: "i - 1 < length doc" by simp
  have "map (textract_extract_text_with_structure client) (map get_pixmap_png doc) ! (i - 1)
      = map Inr prs ! (i - 1)"
    by (simp only: prs)
  with lt len at
  have gw: "textract_extract_text_with_structure client (get_pixmap_png (doc ! (i - 1))) = Inr pr"
    by simp
  have "lines pr \<noteq> []"
  proof
    assume "lines pr = []"
    with structure_raw_text [OF gw] have "raw_text pr = []" by simp
    with nb show False by (simp add: strip_def)
  qed
  with avg num i len gw
  show "\<exists>pr. 1 \<le> page_number pg \<and> page_number pg \<le> length doc
          \<and> textract_extract_text_with_structure client
               (get_pixmap_png (doc ! (page_number pg - 1))) = Inr pr
          \<and> lines pr \<noteq> []
          \<and> average_confidence pg
               = sum_list (map confidence (lines pr)) / of_nat (length (lines pr))"
    by auto
qed

text \<open>The theorem on three pages with two lines each, of confidence 99 and 97.\<close>

theorem average_confidence_guarded_witness:
  "average_confidence_of [] = Inr 0
   \<and> average_confidence_of [sample_fragment ''Hello'' 99, sample_fragment ''World'' 97] = Inr 98
   \<and> endswith (lower (filename (upload ''scan.pdf''))) ''.pdf''
   \<and> opens_as doc_scanned (contents (upload ''scan.pdf'')) = Inr doc_scanned
   \<and> (\<exists>j. extract_text_json two_line_client (opens_as doc_scanned) (upload ''scan.pdf'') = Inr j
         \<and> map page_number (pages j) = [1, 2, 3]
         \<and> map average_confidence (pages j) = [98, 98, 98]
         \<and> list_all (\<lambda>pg. \<exists>pr.
               textract_extract_text_with_structure two_line_client
                 (get_pixmap_png (doc_scanned ! (page_number pg - 1))) = Inr pr
               \<and> lines pr \<noteq> []
               \<and> average_confidence pg
                    = sum_list (map confidence (lines pr)) / of_nat (length (lines pr)))
             (pages j))"
proof -
  have a1: "average_confidence_of [] = Inr 0"
    using average_confidence_guarded [of "[]"] by simp
  have a2: "average_confidence_of [sample_fragment ''Hello'' 99, sample_fragment ''World'' 97]
      = Inr 98"
    using average_confidence_guarded [of "[sample_fragment ''Hello'' 99, sample_fragment ''World'' 97]"]
    by (simp add: sample_fragment_def)
  have h1: "endswith (lower (filename (upload ''scan.pdf''))) ''.pdf''"
    by code_simp
  have h2: "opens_as doc_scanned (contents (upload ''scan.pdf'')) = Inr doc_scanned"
    by (simp add: opens_as_def)
  have ev: "map_sum id (\<lambda>j. (map page_number (pages j), map average_confidence (pages j)))
      (extract_text_json two_line_client (opens_as doc_scanned) (upload ''scan.pdf''))
      = Inr ([1, 2, 3], [98, 98, 98])"
    by code_simp
  then obtain j where
    j: "extract_text_json two_line_client (opens_as doc_scanned) (upload ''scan.pdf'') = Inr j"
    and nums: "map page_number (pages j) = [1, 2, 3]"
    and avgs: "map average_confidence (pages j) = [98, 98, 98]"
    by (cases "extract_text_json two_line_client (opens_as doc_scanned) (upload ''scan.pdf'')") auto
  from average_confidence_guarded [of "[]" two_line_client 1 "[]" "[]" "[]" "[]"
      "upload ''scan.pdf''" "opens_as doc_scanned" doc_scanned j] h1 h2 j
  have "\<forall>pg\<in>set (pages j). \<exists>pr.
          1 \<le> page_number pg \<and> page_number pg \<le> length doc_scanned
          \<and> textract_extract_text_with_structure two_line_client
               (get_pixmap_png (doc_scanned ! (page_number pg - 1))) = Inr pr
          \<and> lines pr \<noteq> []
          \<and> average_confidence pg
               = sum_list (map confidence (lines pr)) / of_nat (length (lines pr))"
    by blast
  then have "list_all (\<lambda>pg. \<exists>pr.
               textract_extract_text_with_structure two_line_client
                 (get_pixmap_png (doc_scanned ! (page_number pg - 1))) = Inr pr
               \<and> lines pr \<noteq> []
               \<and> average_confidence pg
                    = sum_list (map confidence (lines pr)) / of_nat (length (lines pr)))
             (pages j)"
    unfolding list_all_iff by blast
  with a1 a2 h1 h2 j nums avgs show ?thesis
    by - (intro conjI exI [of _ j]; assumption)
qed

section \<open>C8: the health check\<close>

text \<open>
  C8. The health check reports \<open>healthy\<close> when the provider answers the test image and
  when it refuses it with InvalidParameterException or UnsupportedDocumentException; for
  UnrecognizedClientException, AccessDeniedException, every other error code and every
  other exception it reports \<open>error\<close>.
\<close>

theorem health_textract_status:
  "status (health_textract client) =
     (case client test_image of
        Response blocks \<Rightarrow> ''healthy''
      | ClientError error_code \<Rightarrow>
          if error_code = ''InvalidParameterException''
             \<or> error_code = ''UnsupportedDocumentException''
          then ''healthy'' else ''error''
      | OtherException e \<Rightarrow> ''error'')"
  by (simp add: health_textract_def split: detect_result.split)

theorem health_textract_status_witness:
  "status (health_textract unsupported_document_client) = ''healthy''"
  using health_textract_status [of unsupported_document_client]
  by (simp add: unsupported_document_client_def)

section \<open>C9: the detailed answer keeps blank pages, the JSON answer counts the others\<close>

text \<open>
  C9. For an upload that passes the extension check and opens as \<open>doc\<close>, when the
  structured gateway returns the page results \<open>prs\<close> for the pages of \<open>doc\<close>:
  /extract-text-detailed/ answers with one entry per page, numbered from 1 and carrying
  that page's result, blank or not, and its \<open>total_pages\<close> is the number of pages of the
  document; \<open>total_pages\<close> of /extract-text-json/ is the number of pages whose \<open>raw_text\<close>
  is not blank after stripping. Every answer of either handler comes from such page
  results.
\<close>

theorem detailed_keeps_blank_pages:
  assumes "endswith (lower (filename file)) ''.pdf''"
    and "fitz_open (contents file) = Inr doc"
  shows "(map (\<lambda>p. textract_extract_text_with_structure client (get_pixmap_png p)) doc
            = map Inr prs \<longrightarrow>
          (\<exists>d j. extract_text_detailed client fitz_open file = Inr d
             \<and> d_pages d = map (\<lambda>(i, pr). \<lparr>d_page_number = i, d_raw_text = raw_text pr,
                                            d_lines = lines pr, d_words = words pr\<rparr>)
                             (enumerate 1 prs)
             \<and> length (d_pages d) = length doc
             \<and> d_total_pages d = length doc
             \<and> extract_text_json client fitz_open file = Inr j
             \<and> total_pages j = length (filter (\<lambda>pr. strip (raw_text pr) \<noteq> []) prs)
             \<and> length (pages j) = total_pages j))
       \<and> (extract_text_detailed client fitz_open file = Inr d' \<longrightarrow>
            (\<exists>prs. map (\<lambda>p. textract_extract_text_with_structure client (get_pixmap_png p)) doc
               = map Inr prs))
       \<and> (extract_text_json client fitz_open file = Inr j' \<longrightarrow>
            (\<exists>prs. map (\<lambda>p. textract_extract_text_with_structure client (get_pixmap_png p)) doc
               = map Inr prs))"
proof (intro conjI impI)
  assume a: "map (\<lambda>p. textract_extract_text_with_structure client (get_pixmap_png p)) doc
      = map Inr prs"
  then have prs: "map (textract_extract_text_with_structure client) (map get_pixmap_png doc)
      = map Inr prs"
    by (simp add: comp_def)
  from a have "length (map (\<lambda>p. textract_extract_text_with_structure client (get_pixmap_png p)) doc)
      = length (map (Inr :: page_result \<Rightarrow> HTTPException + page_result) prs)"
    by (rule arg_cong)
  then have len: "length prs = length doc"
    by simp
  have cnt: "length (filter (\<lambda>(i, pr). strip (raw_text pr) \<noteq> []) (enumerate n prs))
      = length (filter (\<lambda>pr. strip (raw_text pr) \<noteq> []) prs)" for n
    by (induction prs arbitrary: n) auto
  show "\<exists>d j. extract_text_detailed client fitz_open file = Inr d
             \<and> d_pages d = map (\<lambda>(i, pr). \<lparr>d_page_number = i, d_raw_text = raw_text pr,
                                            d_lines = lines pr, d_words = words pr\<rparr>)
                             (enumerate 1 prs)
             \<and> length (d_pages d) = length doc
             \<and> d_total_pages d = length doc
             \<and> extract_text_json client fitz_open file = Inr j
             \<and> total_pages j = length (filter (\<lambda>pr. strip (raw_text pr) \<noteq> []) prs)
             \<and> length (pages j) = total_pages j"
    using assms len cnt
    by (simp add: extract_text_detailed_def extract_text_detailed_try_def
        extract_text_json_def extract_text_json_try_def pdf_to_images_eq
        detailed_loop_ok [OF prs] json_loop_ok [OF prs])
next
  assume "extract_text_detailed client fitz_open file = Inr d'"
  with assms obtain detailed_results
    where "detailed_loop client 1 (map get_pixmap_png doc) [] = Inr detailed_results"
    by (auto simp: extract_text_detailed_def extract_text_detailed_try_def pdf_to_images_eq
        split: sum.splits py_exception.splits)
  from detailed_loop_all_pages [OF this]
  show "\<exists>prs. map (\<lambda>p. textract_extract_text_with_structure client (get_pixmap_png p)) doc
      = map Inr prs"
    by (simp add: comp_def)
next
  assume "extract_text_json client fitz_open file = Inr j'"
  with assms obtain r
    where "json_loop client 1 (map get_pixmap_png doc) [] [] = Inr r"
    by (auto simp: extract_text_json_def extract_text_json_try_def pdf_to_images_eq
        split: sum.splits py_exception.splits)
  from json_loop_all_pages [OF this]
  show "\<exists>prs. map (\<lambda>p. textract_extract_text_with_structure client (get_pixmap_png p)) doc
      = map Inr prs"
    by (simp add: comp_def)
qed

text \<open>The theorem on three scanned pages of which the second is blank: three entries and
  \<open>total_pages\<close> 3 in the detailed answer, \<open>total_pages\<close> 2 in the JSON answer.\<close>

theorem detailed_keeps_blank_pages_witness:
  "endswith (lower (filename (upload ''scan.pdf''))) ''.pdf''
   \<and> map (\<lambda>p. textract_extract_text_with_structure sample_client (get_pixmap_png p)) doc_scanned
       = map Inr scanned_results
   \<and> (\<exists>d j. extract_text_detailed sample_client (opens_as doc_scanned) (upload ''scan.pdf'') = Inr d
         \<and> map d_page_number (d_pages d) = [1, 2, 3]
         \<and> map d_raw_text (d_pages d) = [''first'', [], ''third'']
         \<and> d_total_pages d = 3
         \<and> extract_text_json sample_client (opens_as doc_scanned) (upload ''scan.pdf'') = Inr j
         \<and> total_pages j = 2)"
proof -
  have h1: "endswith (lower (filename (upload ''scan.pdf''))) ''.pdf''"
    by code_simp
  have h2: "opens_as doc_scanned (contents (upload ''scan.pdf'')) = Inr doc_scanned"
    by (simp add: opens_as_def)
  have h3: "map (\<lambda>p. textract_extract_text_with_structure sample_client (get_pixmap_png p))
      doc_scanned = map Inr scanned_results"
    by code_simp
  have v1: "map d_page_number
      (map (\<lambda>(i, pr). \<lparr>d_page_number = i, d_raw_text = raw_text pr,
                        d_lines = lines pr, d_words = words pr\<rparr>) (enumerate 1 scanned_results))
      = [1, 2, 3]"
    by code_simp
  have v2: "map d_raw_text
      (map (\<lambda>(i, pr). \<lparr>d_page_number = i, d_raw_text = raw_text pr,
                        d_lines = lines pr, d_words = words pr\<rparr>) (enumerate 1 scanned_results))
      = [''first'', [], ''third'']"
    by code_simp
  have v3: "length doc_scanned = 3"
    by (simp add: doc_scanned_def)
  have v4: "length (filter (\<lambda>pr. strip (raw_text pr) \<noteq> []) scanned_results) = 2"
    by code_simp
  from detailed_keeps_blank_pages [of "upload ''scan.pdf''" "opens_as doc_scanned" doc_scanned
      sample_client scanned_results, OF h1 h2] h3
  obtain d j where
      "extract_text_detailed sample_client (opens_as doc_scanned) (upload ''scan.pdf'') = Inr d"
      "d_pages d = map (\<lambda>(i, pr). \<lparr>d_page_number = i, d_raw_text = raw_text pr,
                        d_lines = lines pr, d_words = words pr\<rparr>) (enumerate 1 scanned_results)"
      "d_total_pages d = length doc_scanned"
      "extract_text_json sample_client (opens_as doc_scanned) (upload ''scan.pdf'') = Inr j"
      "total_pages j = length (filter (\<lambda>pr. strip (raw_text pr) \<noteq> []) scanned_results)"
    by blast
  with v1 v2 v3 v4 have
    "\<exists>d j. extract_text_detailed sample_client (opens_as doc_scanned) (upload ''scan.pdf'') = Inr d
         \<and> map d_page_number (d_pages d) = [1, 2, 3]
         \<and> map d_raw_text (d_pages d) = [''first'', [], ''third'']
         \<and> d_total_pages d = 3
         \<and> extract_text_json sample_client (opens_as doc_scanned) (upload ''scan.pdf'') = Inr j
         \<and> total_pages j = 2"
    by (metis (no_types, lifting))
  with h1 h3 show ?thesis by blast
qed

section \<open>C10: the extension check\<close>

text \<open>
  C10. The extension check of the four upload handlers is case-insensitive: each handler
  answers with the rejection of the check, status 400 with the detail Only PDF files are
  supported, exactly when the lower-cased file name does not end in .pdf.
\<close>

theorem extension_check_case_insensitive:
  "status_code only_pdf = 400
   \<and> detail only_pdf = ''Only PDF files are supported.''
   \<and> (extract_text client fitz_open file = Inl only_pdf)
     = (\<not> endswith (lower (filename file)) ''.pdf'')
   \<and> (extract_text_with_fallback client fitz_open file = Inl only_pdf)
     = (\<not> endswith (lower (filename file)) ''.pdf'')
   \<and> (extract_text_json client fitz_open file = Inl only_pdf)
     = (\<not> endswith (lower (filename file)) ''.pdf'')
   \<and> (extract_text_detailed client fitz_open file = Inl only_pdf)
     = (\<not> endswith (lower (filename file)) ''.pdf'')"
proof -
  have a: "extract_text client fitz_open file \<noteq> Inl only_pdf"
    if "endswith (lower (filename file)) ''.pdf''"
    using that plain_not_only_pdf [of client]
    by (auto simp: extract_text_def extract_text_try_def only_pdf_def
        split: sum.splits py_exception.splits dest!: extract_text_loop_error)
  have b: "extract_text_with_fallback client fitz_open file \<noteq> Inl only_pdf"
    if "endswith (lower (filename file)) ''.pdf''"
    using that plain_not_only_pdf [of client]
    by (auto simp: extract_text_with_fallback_def extract_text_with_fallback_try_def only_pdf_def
        Let_def split: sum.splits py_exception.splits if_splits dest!: ocr_loop_error)
  have c: "extract_text_json client fitz_open file \<noteq> Inl only_pdf"
    if "endswith (lower (filename file)) ''.pdf''"
    using that structure_not_only_pdf [of client]
    by (auto simp: extract_text_json_def extract_text_json_try_def only_pdf_def
        split: sum.splits py_exception.splits dest!: json_loop_error)
  have d: "extract_text_detailed client fitz_open file \<noteq> Inl only_pdf"
    if "endswith (lower (filename file)) ''.pdf''"
    using that structure_not_only_pdf [of client]
    by (auto simp: extract_text_detailed_def extract_text_detailed_try_def only_pdf_def
        split: sum.splits py_exception.splits dest!: detailed_loop_error)
  have s: "status_code only_pdf = 400" "detail only_pdf = ''Only PDF files are supported.''"
    by (simp_all add: only_pdf_def)
  have r: "extract_text client fitz_open file = Inl only_pdf"
      "extract_text_with_fallback client fitz_open file = Inl only_pdf"
      "extract_text_json client fitz_open file = Inl only_pdf"
      "extract_text_detailed client fitz_open file = Inl only_pdf"
    if "\<not> endswith (lower (filename file)) ''.pdf''"
    using that
    by (simp_all add: extract_text_def extract_text_with_fallback_def extract_text_json_def
        extract_text_detailed_def)
  show ?thesis
    using a b c d r s by blast
qed

text \<open>The theorem on the names DOC.PDF, which passes, and notes.pdf.txt, which does not.\<close>

theorem extension_check_case_insensitive_witness:
  "endswith (lower (filename (upload ''DOC.PDF''))) ''.pdf''
   \<and> extract_text sample_client (opens_as doc_scanned) (upload ''DOC.PDF'') \<noteq> Inl only_pdf
   \<and> extract_text_with_fallback sample_client (opens_as doc_scanned) (upload ''DOC.PDF'')
       \<noteq> Inl only_pdf
   \<and> extract_text_json sample_client (opens_as doc_scanned) (upload ''DOC.PDF'') \<noteq> Inl only_pdf
   \<and> extract_text_detailed sample_client (opens_as doc_scanned) (upload ''DOC.PDF'')
       \<noteq> Inl only_pdf
   \<and> \<not> endswith (lower (filename (upload ''notes.pdf.txt''))) ''.pdf''
   \<and> extract_text sample_client (opens_as doc_scanned) (upload ''notes.pdf.txt'') = Inl only_pdf
   \<and> extract_text_with_fallback sample_client (opens_as doc_scanned) (upload ''notes.pdf.txt'')
       = Inl only_pdf
   \<and> extract_text_json sample_client (opens_as doc_scanned) (upload ''notes.pdf.txt'')
       = Inl only_pdf
   \<and> extract_text_detailed sample_client (opens_as doc_scanned) (upload ''notes.pdf.txt'')
       = Inl only_pdf"
proof -
  have y: "endswith (lower (filename (upload ''DOC.PDF''))) ''.pdf''"
    by code_simp
  have n: "\<not> endswith (lower (filename (upload ''notes.pdf.txt''))) ''.pdf''"
    by code_simp
  from y n
    extension_check_case_insensitive [of sample_client "opens_as doc_scanned" "upload ''DOC.PDF''"]
    extension_check_case_insensitive [of sample_client "opens_as doc_scanned"
      "upload ''notes.pdf.txt''"]
  show ?thesis by blast
qed


end
